theory Spec2Isabelle
  imports Main "HOL-Library.Word"
begin

unbundle bit_operations_syntax

section \<open>Data model of the ESP transport (esp.c)\<close>

type_synonym u8 = "8 word"

text \<open>
  Modelled from the spec: the \<^verbatim>\<open>DTLS_*\<close> macros live in openconnect-internal.h, which is
  not part of the sources at hand. The spec lists the five states below, calls Disabled
  and NoSecret the inoperable ones and the other three the active ones; the numeric rank
  used by the comparison in \<^verbatim>\<open>esp_close\<close> follows that order.
\<close>

datatype dtls_state =
  DTLS_NOSECRET | DTLS_DISABLED | DTLS_SLEEPING | DTLS_CONNECTING | DTLS_CONNECTED

fun dtls_state_val :: "dtls_state \<Rightarrow> int" where
  "dtls_state_val DTLS_NOSECRET = 0"
| "dtls_state_val DTLS_DISABLED = 1"
| "dtls_state_val DTLS_SLEEPING = 2"
| "dtls_state_val DTLS_CONNECTING = 3"
| "dtls_state_val DTLS_CONNECTED = 4"

definition EINVAL :: int where
  "EINVAL = 22"

text \<open>
  Modelled from the spec: \<^verbatim>\<open>struct esp\<close> is declared outside esp.c. The SPI is the four
  bytes as stored (network byte order), the sequence counter is a counter without a
  width, the keys are byte buffers.
\<close>

record esp =
  esp_seq :: nat
  esp_spi :: "u8 list"
  esp_enc_key :: "u8 list"
  esp_hmac_key :: "u8 list"

text \<open>
  A packet buffer: \<^verbatim>\<open>pkt->len\<close>, the bytes of the \<^verbatim>\<open>pkt->esp\<close> header region (SPI, sequence
  number and what else the header holds) and the bytes of \<^verbatim>\<open>pkt->data\<close>. The lists hold
  what was last written to the buffer.
\<close>

record pkt =
  pkt_len :: int
  pkt_hdr :: "u8 list"
  pkt_data :: "u8 list"

record keepalive_info =
  dpd :: int
  last_rx :: int
  last_tx :: int

text \<open>
  The session, \<^verbatim>\<open>struct openconnect_info\<close>, with the fields esp.c reads or writes. The three
  \<open>monitored\<close> flags stand for the membership of \<^verbatim>\<open>dtls_fd\<close> in the read, write and exception
  sets of the poll loop. The ceiling \<open>old_esp_maxseq\<close> is a counter like \<open>esp_seq\<close>.
\<close>

record vpninfo =
  dtls_state :: dtls_state
  dtls_fd :: int
  dtls_read_monitored :: bool
  dtls_write_monitored :: bool
  dtls_except_monitored :: bool
  esp_in :: "esp list"
  current_esp_in :: nat
  esp_out :: esp
  old_esp_maxseq :: nat
  esp_enc :: nat
  esp_hmac :: nat
  enc_key_len :: nat
  hmac_key_len :: nat
  esp_ssl_fallback :: int
  dtls_times :: keepalive_info
  dtls_attempt_period :: int
  new_dtls_started :: int
  dtls_need_reconnect :: bool
  ip_info_mtu :: int
  pkt_trailer :: int
  dtls_pkt :: "pkt option"
  incoming_queue :: "pkt list"
  outgoing_queue :: "pkt list"

subsection \<open>The world outside the session\<close>

datatype errno = ENOBUFS | EAGAIN | EWOULDBLOCK | ECONNREFUSED | EMSGSIZE | EINTR

datatype recv_res = Datagram "u8 list" | Recv_failed errno

datatype send_res = Send_res int errno

datatype ka_action = KA_NONE | KA_DPD | KA_DPD_DEAD | KA_KEEPALIVE | KA_REKEY

datatype prg = PRG_ERR | PRG_INFO | PRG_DEBUG | PRG_TRACE

text \<open>One constructor for each message esp.c passes to \<^verbatim>\<open>vpn_progress\<close>, with its arguments.\<close>

datatype msg =
    Msg_parameters string nat
  | Msg_enc_type string string
  | Msg_auth_type string string
  | Msg_send_probes
  | Msg_alloc_failed
  | Msg_received int
  | Msg_old_spi nat nat
  | Msg_invalid_spi nat
  | Msg_bad_payload_type u8
  | Msg_bad_pad_length u8
  | Msg_bad_pad_bytes
  | Msg_established
  | Msg_alloc_decrypt_failed
  | Msg_lzo_failed
  | Msg_lzo_decompressed int int
  | Msg_rekey_unimplemented
  | Msg_dead_peer
  | Msg_send_probes_dpd
  | Msg_keepalive_unimplemented
  | Msg_send_failed errno
  | Msg_sent int

text \<open>
  What the functions of esp.c do to their surroundings, in the order they do it. The
  number in \<open>Decrypt\<close> is the index into \<^verbatim>\<open>esp_in\<close> of the context handed to the crypto
  provider.
\<close>

datatype event =
    Progress prg msg
  | Send_probes
  | Udp_close
  | Catch_probe pkt int
  | Malloc bool
  | Recv int
  | Decrypt nat pkt int
  | Lzo_decode int int
  | Queue_incoming pkt
  | Keepalive ka_action
  | Encrypt pkt int
  | Send "u8 list" send_res
  | Free pkt
  | Closesocket int

text \<open>
  The session together with what the operating system holds for it: the datagrams
  waiting on the socket, the results the next calls of \<^verbatim>\<open>send\<close> and \<^verbatim>\<open>malloc\<close> will give (an
  exhausted list means success), and the trace of events so far.
\<close>

record world =
  vpn :: vpninfo
  sockq :: "recv_res list"
  sendq :: "send_res list"
  mallocq :: "bool list"
  trace :: "event list"

text \<open>
  The collaborators esp.c calls but does not define, as parameters. The three transport
  actions of \<^verbatim>\<open>vpninfo->proto\<close> are optional and receive the session; the crypto provider
  receives a context and a packet. \<open>sizeof_esp\<close> is \<^verbatim>\<open>sizeof(pkt->esp)\<close>; \<open>time_now\<close> gives the
  value of \<^verbatim>\<open>time(NULL)\<close> after the given number of events.

  Modelled from the spec: \<^verbatim>\<open>av_lzo1x_decode\<close> is declared in lzo.h, which is not part of the
  sources at hand. The spec gives the decompression adapter as returning success or
  failure plus the bytes produced, with leftover input an error. The parameter receives
  the capacity of the output buffer, the input bytes and the input length, and returns
  its status, the bytes it produced and the length of the input it left unread.
\<close>

record env =
  sizeof_esp :: nat
  udp_send_probes :: "(vpninfo \<Rightarrow> vpninfo) option"
  udp_close :: "(vpninfo \<Rightarrow> vpninfo) option"
  udp_catch_probe :: "(vpninfo \<Rightarrow> pkt \<Rightarrow> int) option"
  decrypt_esp_packet :: "esp \<Rightarrow> pkt \<Rightarrow> int \<times> esp \<times> pkt"
  encrypt_esp_packet :: "esp \<Rightarrow> pkt \<Rightarrow> int \<times> esp \<times> pkt"
  av_lzo1x_decode :: "int \<Rightarrow> u8 list \<Rightarrow> int \<Rightarrow> int \<times> u8 list \<times> int"
  keepalive_action :: "keepalive_info \<Rightarrow> int \<Rightarrow> ka_action \<times> keepalive_info \<times> int"
  ka_check_deadline :: "int \<Rightarrow> int \<Rightarrow> int \<Rightarrow> int \<times> int"
  time_now :: "nat \<Rightarrow> int"

section \<open>Primitive operations\<close>

definition log_ev :: "event \<Rightarrow> world \<Rightarrow> world" where
  "log_ev e w = w\<lparr>trace := trace w @ [e]\<rparr>"

definition vpn_progress :: "prg \<Rightarrow> msg \<Rightarrow> world \<Rightarrow> world" where
  "vpn_progress l m w = log_ev (Progress l m) w"

definition time_NULL :: "env \<Rightarrow> world \<Rightarrow> int" where
  "time_NULL E w = time_now E (length (trace w))"

definition upd_vpn :: "(vpninfo \<Rightarrow> vpninfo) \<Rightarrow> world \<Rightarrow> world" where
  "upd_vpn f w = w\<lparr>vpn := f (vpn w)\<rparr>"

text \<open>\<^verbatim>\<open>if (vpninfo->proto->udp_send_probes) vpninfo->proto->udp_send_probes(vpninfo);\<close>\<close>

definition call_send_probes :: "env \<Rightarrow> world \<Rightarrow> world" where
  "call_send_probes E w =
     (case udp_send_probes E of
        None \<Rightarrow> w
      | Some f \<Rightarrow> upd_vpn f (log_ev Send_probes w))"

definition call_udp_close :: "env \<Rightarrow> world \<Rightarrow> world" where
  "call_udp_close E w =
     (case udp_close E of
        None \<Rightarrow> w
      | Some f \<Rightarrow> upd_vpn f (log_ev Udp_close w))"

text \<open>
  \<^verbatim>\<open>ntohl\<close> of a field stored in network byte order: the big-endian value of its bytes.
\<close>

definition ntohl :: "u8 list \<Rightarrow> nat" where
  "ntohl bs = foldl (\<lambda>a b. a * 256 + unat b) 0 bs"

definition pkt_esp_spi :: "pkt \<Rightarrow> u8 list" where
  "pkt_esp_spi p = take 4 (pkt_hdr p)"

definition pkt_esp_seq :: "pkt \<Rightarrow> u8 list" where
  "pkt_esp_seq p = take 4 (drop 4 (pkt_hdr p))"

text \<open>A read of a byte list by index. Outside the list the model gives 0.\<close>

definition byte_at :: "u8 list \<Rightarrow> int \<Rightarrow> u8" where
  "byte_at d i = (if 0 \<le> i \<and> i < int (length d) then d ! nat i else 0)"

text \<open>
  A read of \<^verbatim>\<open>pkt->data[i]\<close>. The header region \<^verbatim>\<open>pkt->esp\<close> ends where \<^verbatim>\<open>pkt->data\<close> begins, so
  a negative index reads the header region from its end: for a one-byte payload line 179
  reads \<^verbatim>\<open>pkt->data[-1]\<close>, the last byte of the header.
\<close>

definition pkt_byte :: "pkt \<Rightarrow> int \<Rightarrow> u8" where
  "pkt_byte p i =
     (if 0 \<le> i then byte_at (pkt_data p) i
      else byte_at (pkt_hdr p) (int (length (pkt_hdr p)) + i))"

definition malloc :: "world \<Rightarrow> bool \<times> world" where
  "malloc w =
     (case mallocq w of
        [] \<Rightarrow> (True, log_ev (Malloc True) w)
      | b # bs \<Rightarrow> (b, log_ev (Malloc b) (w\<lparr>mallocq := bs\<rparr>)))"

definition monitor_write_fd :: "world \<Rightarrow> world" where
  "monitor_write_fd w = upd_vpn (\<lambda>v. v\<lparr>dtls_write_monitored := True\<rparr>) w"

definition unmonitor_write_fd :: "world \<Rightarrow> world" where
  "unmonitor_write_fd w = upd_vpn (\<lambda>v. v\<lparr>dtls_write_monitored := False\<rparr>) w"

definition unmonitor_read_fd :: "world \<Rightarrow> world" where
  "unmonitor_read_fd w = upd_vpn (\<lambda>v. v\<lparr>dtls_read_monitored := False\<rparr>) w"

definition unmonitor_except_fd :: "world \<Rightarrow> world" where
  "unmonitor_except_fd w = upd_vpn (\<lambda>v. v\<lparr>dtls_except_monitored := False\<rparr>) w"

definition queue_incoming :: "pkt \<Rightarrow> world \<Rightarrow> world" where
  "queue_incoming p w =
     log_ev (Queue_incoming p) (upd_vpn (\<lambda>v. v\<lparr>incoming_queue := incoming_queue v @ [p]\<rparr>) w)"

definition put_pkt :: "pkt \<Rightarrow> world \<Rightarrow> world" where
  "put_pkt p w = upd_vpn (\<lambda>v. v\<lparr>dtls_pkt := Some p\<rparr>) w"

section \<open>print\_esp\_keys and esp\_setup\<close>

definition hex_digit :: "nat \<Rightarrow> char" where
  "hex_digit n = (''0123456789abcdef'') ! (n mod 16)"

definition hex_bytes :: "u8 list \<Rightarrow> nat \<Rightarrow> string" where
  "hex_bytes key n =
     concat (map (\<lambda>i. [hex_digit (unat (byte_at key (int i)) div 16),
                         hex_digit (unat (byte_at key (int i)))]) [0..<n])"

definition print_esp_keys :: "world \<Rightarrow> string \<Rightarrow> esp \<Rightarrow> int \<times> world" where
  "print_esp_keys w name e =
     (let v = vpn w in
      if esp_enc v \<noteq> 2 \<and> esp_enc v \<noteq> 5 then (- EINVAL, w)
      else if esp_hmac v \<noteq> 1 \<and> esp_hmac v \<noteq> 2 then (- EINVAL, w)
      else
        let enctype = (if esp_enc v = 2 then ''AES-128-CBC (RFC3602)''
                       else ''AES-256-CBC (RFC3602)'');
            mactype = (if esp_hmac v = 1 then ''HMAC-MD5-96 (RFC2403)''
                       else ''HMAC-SHA-1-96 (RFC2404)'');
            enckey = hex_bytes (esp_enc_key e) (enc_key_len v);
            mackey = hex_bytes (esp_hmac_key e) (hmac_key_len v)
        in (0, vpn_progress PRG_TRACE (Msg_auth_type mactype mackey)
                 (vpn_progress PRG_TRACE (Msg_enc_type enctype enckey)
                   (vpn_progress PRG_TRACE (Msg_parameters name (ntohl (esp_spi e))) w))))"

definition esp_setup :: "env \<Rightarrow> world \<Rightarrow> int \<Rightarrow> int \<times> world" where
  "esp_setup E w attempt_period =
     (if dtls_state (vpn w) = DTLS_DISABLED \<or> dtls_state (vpn w) = DTLS_NOSECRET
      then (- EINVAL, w)
      else
        let w1 = upd_vpn (\<lambda>v. v\<lparr>dtls_times := (dtls_times v)
                     \<lparr>dpd := (if esp_ssl_fallback v \<noteq> 0 then esp_ssl_fallback v
                              else attempt_period)\<rparr>\<rparr>) w;
            w2 = upd_vpn (\<lambda>v. v\<lparr>dtls_attempt_period := attempt_period\<rparr>) w1;
            w3 = snd (print_esp_keys w2 ''incoming'' (esp_in (vpn w2) ! current_esp_in (vpn w2)));
            w4 = snd (print_esp_keys w3 ''outgoing'' (esp_out (vpn w3)));
            w5 = vpn_progress PRG_DEBUG Msg_send_probes w4
        in (0, call_send_probes E w5))"

section \<open>esp\_close\<close>

definition esp_close :: "world \<Rightarrow> world" where
  "esp_close w =
     (let w1 = (if dtls_fd (vpn w) \<noteq> - 1
                then upd_vpn (\<lambda>v. v\<lparr>dtls_fd := - 1\<rparr>)
                       (unmonitor_except_fd (unmonitor_write_fd (unmonitor_read_fd
                          (log_ev (Closesocket (dtls_fd (vpn w))) w))))
                else w)
      in if dtls_state_val (dtls_state (vpn w1)) > dtls_state_val DTLS_DISABLED
         then upd_vpn (\<lambda>v. v\<lparr>dtls_state := DTLS_SLEEPING\<rparr>) w1
         else w1)"

section \<open>esp\_mainloop\<close>

subsection \<open>The receive drain, lines 121 to 232\<close>

text \<open>Lines 126 to 133: the pooled receive buffer, allocated when there is none.\<close>

definition esp_rx_alloc :: "world \<Rightarrow> world \<times> pkt option" where
  "esp_rx_alloc w =
     (case dtls_pkt (vpn w) of
        Some p \<Rightarrow> (w, Some p)
      | None \<Rightarrow>
          (case malloc w of (ok, w1) \<Rightarrow>
             if ok
             then (put_pkt \<lparr>pkt_len = 0, pkt_hdr = [], pkt_data = []\<rparr> w1,
                   Some \<lparr>pkt_len = 0, pkt_hdr = [], pkt_data = []\<rparr>)
             else (vpn_progress PRG_ERR Msg_alloc_failed w1, None)))"

text \<open>
  Lines 149 to 164: the datagram is routed by its SPI. \<open>cur\<close> is the index of the
  current inbound context as read at the entry of \<^verbatim>\<open>esp_mainloop\<close>. The result is the packet
  to go on with, or nothing after a \<^verbatim>\<open>continue\<close>.
\<close>

definition esp_rx_route :: "env \<Rightarrow> nat \<Rightarrow> pkt \<Rightarrow> world \<Rightarrow> world \<times> pkt option" where
  "esp_rx_route E cur p w =
     (let esp = esp_in (vpn w) ! cur;
          old_esp = esp_in (vpn w) ! (cur XOR 1)
      in if pkt_esp_spi p = esp_spi esp then
           (case decrypt_esp_packet E esp p of (r, esp', p') \<Rightarrow>
              let w1 = put_pkt p' (log_ev (Decrypt cur p r)
                         (upd_vpn (\<lambda>v. v\<lparr>esp_in := (esp_in v)[cur := esp']\<rparr>) w))
              in if r \<noteq> 0 then (w1, None) else (w1, Some p'))
         else if pkt_esp_spi p = esp_spi old_esp \<and>
                 ntohl (pkt_esp_seq p) + esp_seq esp < old_esp_maxseq (vpn w) then
           (let w0 = vpn_progress PRG_TRACE
                       (Msg_old_spi (ntohl (esp_spi old_esp)) (ntohl (pkt_esp_seq p))) w
            in case decrypt_esp_packet E old_esp p of (r, esp', p') \<Rightarrow>
              let w1 = put_pkt p' (log_ev (Decrypt (cur XOR 1) p r)
                         (upd_vpn (\<lambda>v. v\<lparr>esp_in := (esp_in v)[cur XOR 1 := esp']\<rparr>) w0))
              in if r \<noteq> 0 then (w1, None) else (w1, Some p'))
         else (vpn_progress PRG_DEBUG (Msg_invalid_spi (ntohl (pkt_esp_spi p))) w, None))"

text \<open>Lines 186 to 190: the scan of the pad bytes; the result is where it stopped.\<close>

function pad_scan :: "u8 list \<Rightarrow> int \<Rightarrow> int \<Rightarrow> int \<Rightarrow> int" where
  "pad_scan d plen padlen i =
     (if i < padlen
      then (if uint (byte_at d (plen + i)) \<noteq> i + 1 then i
            else pad_scan d plen padlen (i + 1))
      else i)"
  by pat_completeness auto
termination
  by (relation "measure (\<lambda>(d, plen, padlen, i). nat (padlen - i))") auto

declare pad_scan.simps [simp del]

text \<open>Lines 171 to 195: Next-Header byte, padding length, pad bytes.\<close>

definition esp_rx_trailer :: "int \<Rightarrow> pkt \<Rightarrow> world \<Rightarrow> world \<times> pkt option" where
  "esp_rx_trailer len p w =
     (let nh = pkt_byte p (len - 1);
          padlen = pkt_byte p (len - 2)
      in if nh \<noteq> 0x04 \<and> nh \<noteq> 0x29 \<and> nh \<noteq> 0x05 then
           (vpn_progress PRG_ERR (Msg_bad_payload_type nh) w, None)
         else if len \<le> 2 + uint padlen then
           (vpn_progress PRG_ERR (Msg_bad_pad_length padlen) w, None)
         else
           (let p1 = p\<lparr>pkt_len := len - 2 - uint padlen\<rparr>;
                w1 = put_pkt p1 w
            in if pad_scan (pkt_data p1) (pkt_len p1) (uint padlen) 0 \<noteq> uint padlen
               then (vpn_progress PRG_ERR Msg_bad_pad_bytes w1, None)
               else (w1, Some p1)))"

text \<open>
  Lines 208 to 227: a compressed payload is decoded into a fresh buffer that holds
  \<^verbatim>\<open>receive_mtu\<close> bytes of data: what the adapter produced is in the buffer, cut to its
  capacity, and \<open>newlen\<close> is the capacity the adapter reports as left.
\<close>

definition esp_rx_lzo :: "env \<Rightarrow> int \<Rightarrow> int \<Rightarrow> pkt \<Rightarrow> world \<Rightarrow> world" where
  "esp_rx_lzo E receive_mtu len p w =
     (case malloc w of (ok, w1) \<Rightarrow>
        if \<not> ok then vpn_progress PRG_ERR Msg_alloc_decrypt_failed w1
        else
          (case av_lzo1x_decode E receive_mtu (pkt_data p) (pkt_len p) of
             (r, produced, inlen) \<Rightarrow>
               let out = take (nat receive_mtu) produced;
                   newlen = receive_mtu - int (length out);
                   w2 = put_pkt (p\<lparr>pkt_len := inlen\<rparr>) (log_ev (Lzo_decode r inlen) w1);
                   newpkt = \<lparr>pkt_len = 0, pkt_hdr = [], pkt_data = out\<rparr>
               in if r \<noteq> 0 \<or> inlen \<noteq> 0
                  then log_ev (Free newpkt) (vpn_progress PRG_ERR Msg_lzo_failed w2)
                  else queue_incoming (newpkt\<lparr>pkt_len := receive_mtu - newlen\<rparr>)
                         (vpn_progress PRG_TRACE
                            (Msg_lzo_decompressed
                               (len - 2 - uint (pkt_byte p (len - 2)))
                               (receive_mtu - newlen)) w2)))"

text \<open>
  Lines 198 and 199: the probe-catch action, if there is one, is asked about the packet.
\<close>

definition call_catch_probe :: "env \<Rightarrow> pkt \<Rightarrow> world \<Rightarrow> int \<times> world" where
  "call_catch_probe E p w =
     (case udp_catch_probe E of
        None \<Rightarrow> (0, w)
      | Some f \<Rightarrow> (f (vpn w) p, log_ev (Catch_probe p (f (vpn w) p)) w))"

text \<open>Lines 196 to 231: timestamp, probe interception, payload dispatch.\<close>

definition esp_rx_deliver :: "env \<Rightarrow> int \<Rightarrow> int \<Rightarrow> pkt \<Rightarrow> world \<Rightarrow> world" where
  "esp_rx_deliver E receive_mtu len p w =
     (case call_catch_probe E p
             (upd_vpn (\<lambda>v. v\<lparr>dtls_times := (dtls_times v)\<lparr>last_rx := time_NULL E w\<rparr>\<rparr>) w) of
        (caught, w2) \<Rightarrow>
          if caught \<noteq> 0 then
            (if dtls_state (vpn w2) = DTLS_SLEEPING
             then upd_vpn (\<lambda>v. v\<lparr>dtls_state := DTLS_CONNECTING\<rparr>)
                    (vpn_progress PRG_INFO Msg_established w2)
             else w2)
          else if pkt_byte p (len - 1) = 0x05 then esp_rx_lzo E receive_mtu len p w2
          else upd_vpn (\<lambda>v. v\<lparr>dtls_pkt := None\<rparr>) (queue_incoming p w2))"

text \<open>
  Lines 149 to 231: a datagram that is long enough, from the routing by SPI to the
  inbound queue. \<open>len\<close> is the local variable of that name, the payload length.
\<close>

definition esp_rx_process :: "env \<Rightarrow> nat \<Rightarrow> int \<Rightarrow> int \<Rightarrow> pkt \<Rightarrow> world \<Rightarrow> world" where
  "esp_rx_process E cur receive_mtu len p w =
     (case esp_rx_route E cur p w of
        (w2, None) \<Rightarrow> w2
      | (w2, Some p2) \<Rightarrow>
          (case esp_rx_trailer len p2 w2 of
             (w3, None) \<Rightarrow> w3
           | (w3, Some p3) \<Rightarrow> esp_rx_deliver E receive_mtu len p3 w3))"

text \<open>
  Lines 138 to 231: one received datagram of positive length. \<open>d\<close> holds the bytes
  \<^verbatim>\<open>recv\<close> wrote to the buffer \<open>pkt0\<close>, header region first.
\<close>

definition esp_recv_one :: "env \<Rightarrow> nat \<Rightarrow> int \<Rightarrow> pkt \<Rightarrow> u8 list \<Rightarrow> world \<Rightarrow> world" where
  "esp_recv_one E cur receive_mtu pkt0 d w =
     (let hs = int (sizeof_esp E);
          n = int (length d);
          p = pkt0\<lparr>pkt_hdr := take (sizeof_esp E) d, pkt_data := drop (sizeof_esp E) d\<rparr>;
          w1 = vpn_progress PRG_TRACE (Msg_received n) (put_pkt p w)
      in if n \<le> hs + 12 then w1
         else esp_rx_process E cur receive_mtu (n - (hs + 12)) (p\<lparr>pkt_len := n - (hs + 12)\<rparr>)
                (put_pkt (p\<lparr>pkt_len := n - (hs + 12)\<rparr>) w1))"

text \<open>
  Lines 121 to 232. The last argument is the list of datagrams waiting on the socket,
  \<open>sockq\<close> of the world: each \<^verbatim>\<open>recv\<close> takes its head. With nothing waiting the
  non-blocking \<^verbatim>\<open>recv\<close> fails. A datagram longer than the buffer is cut to its size.
\<close>

fun esp_recv_loop :: "env \<Rightarrow> nat \<Rightarrow> int \<Rightarrow> int \<Rightarrow> world \<Rightarrow> recv_res list \<Rightarrow> int \<times> world" where
  "esp_recv_loop E cur receive_mtu work_done w [] =
     (case esp_rx_alloc w of
        (w1, None) \<Rightarrow> (work_done, w1)
      | (w1, Some p) \<Rightarrow> (work_done, log_ev (Recv (- 1)) w1))"
| "esp_recv_loop E cur receive_mtu work_done w (Recv_failed e # rest) =
     (case esp_rx_alloc w of
        (w1, None) \<Rightarrow> (work_done, w1)
      | (w1, Some p) \<Rightarrow> (work_done, log_ev (Recv (- 1)) (w1\<lparr>sockq := rest\<rparr>)))"
| "esp_recv_loop E cur receive_mtu work_done w (Datagram d # rest) =
     (case esp_rx_alloc w of
        (w1, None) \<Rightarrow> (work_done, w1)
      | (w1, Some p) \<Rightarrow>
          (let len = receive_mtu + pkt_trailer (vpn w1);
               d' = take (nat (len + int (sizeof_esp E))) d;
               w2 = log_ev (Recv (int (length d'))) (w1\<lparr>sockq := rest\<rparr>)
           in if int (length d') \<le> 0 then (work_done, w2)
              else esp_recv_loop E cur receive_mtu 1
                     (esp_recv_one E cur receive_mtu p d' w2) rest))"

subsection \<open>The transmit drain, lines 264 to 297\<close>

definition send :: "world \<Rightarrow> u8 list \<Rightarrow> send_res \<times> world" where
  "send w bs =
     (case sendq w of
        [] \<Rightarrow> (Send_res (int (length bs)) EINTR,
               log_ev (Send bs (Send_res (int (length bs)) EINTR)) w)
      | r # rest \<Rightarrow> (r, log_ev (Send bs r) (w\<lparr>sendq := rest\<rparr>)))"

text \<open>
  Lines 266 to 294: the body of the transmit loop for the packet \<open>this\<close> just taken
  from the queue. The flag of the result says that the function returns from inside the
  loop (line 277) rather than going on with the next packet.
\<close>

definition esp_tx_one :: "env \<Rightarrow> pkt \<Rightarrow> world \<Rightarrow> bool \<times> world" where
  "esp_tx_one E this w =
     (case encrypt_esp_packet E (esp_out (vpn w)) this of (len, eo, this') \<Rightarrow>
        let w2 = log_ev (Encrypt this len) (upd_vpn (\<lambda>v. v\<lparr>esp_out := eo\<rparr>) w)
        in if len > 0 then
             (case send w2 (take (nat len) (pkt_hdr this' @ pkt_data this')) of
                (Send_res ret e, w3) \<Rightarrow>
                  if ret < 0 then
                    (if e = ENOBUFS \<or> e = EAGAIN \<or> e = EWOULDBLOCK
                     then (True, log_ev (Free this') (monitor_write_fd w3))
                     else (False, log_ev (Free this')
                                    (vpn_progress PRG_ERR (Msg_send_failed e) w3)))
                  else (False, log_ev (Free this')
                                 (vpn_progress PRG_TRACE (Msg_sent len)
                                    (upd_vpn (\<lambda>v. v\<lparr>dtls_times := (dtls_times v)
                                                 \<lparr>last_tx := time_NULL E w3\<rparr>\<rparr>) w3))))
           else (False, log_ev (Free this') w2))"

text \<open>
  Lines 265 to 295. The last argument is the outbound queue, \<open>outgoing_queue\<close> of the
  session: \<^verbatim>\<open>dequeue_packet\<close> takes its head.
\<close>

fun esp_tx_loop :: "env \<Rightarrow> int \<Rightarrow> world \<Rightarrow> pkt list \<Rightarrow> int \<times> world" where
  "esp_tx_loop E work_done w [] = (work_done, w)"
| "esp_tx_loop E work_done w (this # rest) =
     (case esp_tx_one E this (upd_vpn (\<lambda>v. v\<lparr>outgoing_queue := rest\<rparr>) w) of
        (True, w1) \<Rightarrow> (work_done, w1)
      | (False, w1) \<Rightarrow> esp_tx_loop E 1 w1 rest)"

subsection \<open>The whole function\<close>

text \<open>Lines 110 to 117: probing while the session sleeps.\<close>

definition esp_sleep_probe :: "env \<Rightarrow> world \<Rightarrow> int \<Rightarrow> int \<times> world" where
  "esp_sleep_probe E w timeout =
     (if dtls_state (vpn w) = DTLS_SLEEPING then
        (case ka_check_deadline E timeout (time_NULL E w)
                (new_dtls_started (vpn w) + dtls_attempt_period (vpn w)) of
           (r, timeout') \<Rightarrow>
             if r \<noteq> 0 \<or> dtls_need_reconnect (vpn w)
             then (timeout', call_send_probes E (vpn_progress PRG_DEBUG Msg_send_probes w))
             else (timeout', w))
      else (timeout, w))"

text \<open>Lines 237 to 297: the keepalive decision and, unless the peer is dead, the transmit drain.\<close>

definition esp_keepalive_tx :: "env \<Rightarrow> int \<Rightarrow> world \<Rightarrow> int \<Rightarrow> int \<times> int \<times> world" where
  "esp_keepalive_tx E work_done w timeout =
     (case keepalive_action E (dtls_times (vpn w)) timeout of (ka, kt, timeout') \<Rightarrow>
        let w1 = log_ev (Keepalive ka) (upd_vpn (\<lambda>v. v\<lparr>dtls_times := kt\<rparr>) w)
        in if ka = KA_DPD_DEAD then
             (1, timeout',
              call_send_probes E (call_udp_close E (vpn_progress PRG_ERR Msg_dead_peer w1)))
           else
             (let wd_w = (case ka of
                     KA_REKEY \<Rightarrow> (work_done, vpn_progress PRG_ERR Msg_rekey_unimplemented w1)
                   | KA_DPD \<Rightarrow>
                       (1, call_send_probes E (vpn_progress PRG_DEBUG Msg_send_probes_dpd w1))
                   | KA_KEEPALIVE \<Rightarrow>
                       (work_done, vpn_progress PRG_ERR Msg_keepalive_unimplemented w1)
                   | _ \<Rightarrow> (work_done, w1));
                  w2 = unmonitor_write_fd (snd wd_w)
              in case esp_tx_loop E (fst wd_w) w2 (outgoing_queue (vpn w2)) of
                   (r, w3) \<Rightarrow> (r, timeout', w3)))"

text \<open>
  \<^verbatim>\<open>esp_mainloop(vpninfo, &timeout)\<close>: the return value, the new value of \<^verbatim>\<open>*timeout\<close> and
  the new world. \<^verbatim>\<open>receive_mtu\<close> and the indices behind \<^verbatim>\<open>esp\<close> and \<^verbatim>\<open>old_esp\<close> are fixed at entry.
\<close>

definition esp_mainloop :: "env \<Rightarrow> world \<Rightarrow> int \<Rightarrow> int \<times> int \<times> world" where
  "esp_mainloop E w timeout =
     (let cur = current_esp_in (vpn w);
          receive_mtu = max 2048 (ip_info_mtu (vpn w) + 256)
      in case esp_sleep_probe E w timeout of (timeout1, w1) \<Rightarrow>
           if dtls_fd (vpn w1) = - 1 then (0, timeout1, w1)
           else
             (case esp_recv_loop E cur receive_mtu 0 w1 (sockq w1) of (work_done, w2) \<Rightarrow>
                if dtls_state (vpn w2) \<noteq> DTLS_CONNECTED then (0, timeout1, w2)
                else esp_keepalive_tx E work_done w2 timeout1))"

section \<open>Reading the trace\<close>

text \<open>The events a call added to the trace, given the worlds before and after it.\<close>

definition new_events :: "world \<Rightarrow> world \<Rightarrow> event list" where
  "new_events w w' = drop (length (trace w)) (trace w')"

text \<open>\<open>emits P w w'\<close>: from \<open>w\<close> to \<open>w'\<close> the trace only grew, by events that satisfy \<open>P\<close>.\<close>

definition emits :: "(event \<Rightarrow> bool) \<Rightarrow> world \<Rightarrow> world \<Rightarrow> bool" where
  "emits P w w' \<longleftrightarrow> (\<exists>evs. trace w' = trace w @ evs \<and> list_all P evs)"


text \<open>Classes of events: what each part of \<^verbatim>\<open>esp_mainloop\<close> can add to the trace.\<close>

fun rx_event :: "event \<Rightarrow> bool" where
  "rx_event (Progress l m) = True"
| "rx_event (Malloc b) = True"
| "rx_event (Recv n) = True"
| "rx_event (Decrypt i p r) = True"
| "rx_event (Catch_probe p r) = True"
| "rx_event (Lzo_decode r n) = True"
| "rx_event (Queue_incoming p) = True"
| "rx_event (Free p) = True"
| "rx_event _ = False"

fun rx_one_event :: "event \<Rightarrow> bool" where
  "rx_one_event (Progress l m) = True"
| "rx_one_event (Malloc b) = True"
| "rx_one_event (Decrypt i p r) = True"
| "rx_one_event (Catch_probe p r) = True"
| "rx_one_event (Lzo_decode r n) = True"
| "rx_one_event (Queue_incoming p) = True"
| "rx_one_event (Free p) = True"
| "rx_one_event _ = False"

fun rx_tail_event :: "event \<Rightarrow> bool" where
  "rx_tail_event (Progress l m) = True"
| "rx_tail_event (Malloc b) = True"
| "rx_tail_event (Catch_probe p r) = True"
| "rx_tail_event (Lzo_decode r n) = True"
| "rx_tail_event (Queue_incoming p) = True"
| "rx_tail_event (Free p) = True"
| "rx_tail_event _ = False"

fun recv_pos :: "event \<Rightarrow> bool" where
  "recv_pos (Recv n) = (0 < n)"
| "recv_pos _ = False"



fun is_encrypt :: "event \<Rightarrow> bool" where
  "is_encrypt (Encrypt p n) = True"
| "is_encrypt _ = False"

fun probe_event :: "event \<Rightarrow> bool" where
  "probe_event (Progress l m) = (l = PRG_DEBUG \<and> m = Msg_send_probes)"
| "probe_event Send_probes = True"
| "probe_event _ = False"

fun tx_event :: "event \<Rightarrow> bool" where
  "tx_event (Progress l m) = True"
| "tx_event (Encrypt p n) = True"
| "tx_event (Send bs r) = True"
| "tx_event (Free p) = True"
| "tx_event Send_probes = True"
| "tx_event Udp_close = True"
| "tx_event _ = False"

text \<open>
  A result of \<^verbatim>\<open>send\<close> that line 273 takes for transient backpressure, and the event of
  such a send.
\<close>

fun would_block :: "send_res \<Rightarrow> bool" where
  "would_block (Send_res ret e) \<longleftrightarrow> ret < 0 \<and> (e = ENOBUFS \<or> e = EAGAIN \<or> e = EWOULDBLOCK)"

fun blocked_send :: "event \<Rightarrow> bool" where
  "blocked_send (Send bs r) = would_block r"
| "blocked_send _ = False"


text \<open>
  How a transmit drain that met backpressure ends: write monitoring is armed, the queue
  holds exactly the packets behind the one that was dequeued last, and the trace ends
  with the encryption, the one send and the release of that packet.
\<close>

definition tx_blocked_shape :: "int \<Rightarrow> pkt list \<Rightarrow> int \<Rightarrow> world \<Rightarrow> event list \<Rightarrow> bool" where
  "tx_blocked_shape wd q r w' tail \<longleftrightarrow>
     dtls_write_monitored (vpn w') \<and>
     (\<exists>pre this rest evs len bs sr this'.
        q = pre @ this # rest \<and> outgoing_queue (vpn w') = rest \<and>
        tail = evs @ [Encrypt this len, Send bs sr, Free this'] \<and>
        would_block sr \<and> \<not> list_ex blocked_send evs \<and>
        r = (if pre = [] then wd else 1))"

section \<open>A concrete session\<close>

text \<open>
  A session after a rekey: context 0 is current, context 1 the previous one, with the
  ceiling 32 above the sequence number reached at the rekey. The header region holds
  SPI and sequence number only. The crypto provider and the decompression adapter of
  the example leave the bytes as they are.
\<close>

definition ex_vpn :: vpninfo where
  "ex_vpn =
     \<lparr>dtls_state = DTLS_CONNECTED, dtls_fd = 3,
      dtls_read_monitored = True, dtls_write_monitored = False, dtls_except_monitored = True,
      esp_in = [\<lparr>esp_seq = 10, esp_spi = [0, 0, 0, 1], esp_enc_key = [1, 2], esp_hmac_key = [3, 4]\<rparr>,
                \<lparr>esp_seq = 40, esp_spi = [0, 0, 0, 2], esp_enc_key = [5, 6], esp_hmac_key = [7, 8]\<rparr>],
      current_esp_in = 0,
      esp_out = \<lparr>esp_seq = 7, esp_spi = [0, 0, 0, 9], esp_enc_key = [9, 10], esp_hmac_key = [11, 12]\<rparr>,
      old_esp_maxseq = 42, esp_enc = 2, esp_hmac = 2, enc_key_len = 2, hmac_key_len = 2,
      esp_ssl_fallback = 0, dtls_times = \<lparr>dpd = 0, last_rx = 0, last_tx = 0\<rparr>,
      dtls_attempt_period = 30, new_dtls_started = 1000, dtls_need_reconnect = False,
      ip_info_mtu = 1400, pkt_trailer = 0, dtls_pkt = None,
      incoming_queue = [], outgoing_queue = []\<rparr>"

definition ex_world :: world where
  "ex_world = \<lparr>vpn = ex_vpn, sockq = [], sendq = [], mallocq = [], trace = []\<rparr>"

definition ex_env :: env where
  "ex_env =
     \<lparr>sizeof_esp = 8,
      udp_send_probes = Some (\<lambda>v. if dtls_fd v = - 1 then v\<lparr>dtls_fd := 4\<rparr> else v),
      udp_close = Some (\<lambda>v. v\<lparr>dtls_fd := - 1\<rparr>),
      udp_catch_probe = Some (\<lambda>v p. if pkt_len p = 1 \<and> byte_at (pkt_data p) 0 = 0 then 1 else 0),
      decrypt_esp_packet = (\<lambda>e p. (0, e, p)),
      encrypt_esp_packet = (\<lambda>e p. (pkt_len p + 20, e\<lparr>esp_seq := esp_seq e + 1\<rparr>, p)),
      av_lzo1x_decode = (\<lambda>cap inp inlen. (0, take (nat inlen) inp, 0)),
      keepalive_action = (\<lambda>k t. (KA_NONE, k, t)),
      ka_check_deadline = (\<lambda>t now due. if now \<ge> due then (1, t)
                                        else (0, min t ((due - now) * 1000))),
      time_now = (\<lambda>n. 1010)\<rparr>"

text \<open>
  Datagrams and packets for the examples: a datagram with the last byte of its SPI and
  of its sequence number chosen, each followed by twelve bytes that stand for the
  authentication trailer.
\<close>

definition ex_dgram :: "u8 \<Rightarrow> u8 \<Rightarrow> u8 list \<Rightarrow> u8 list" where
  "ex_dgram s q payload = [0, 0, 0, s, 0, 0, 0, q] @ payload @ [1, 2, 3, 4, 5, 6, 7, 8, 9, 10, 11, 12]"

definition ex_pkt :: "u8 list \<Rightarrow> pkt" where
  "ex_pkt payload = \<lparr>pkt_len = int (length payload), pkt_hdr = [0, 0, 0, 1, 0, 0, 0, 11],
                     pkt_data = payload @ [1, 2, 3, 4, 5, 6, 7, 8, 9, 10, 11, 12]\<rparr>"

text \<open>A payload marked as compressed: sixteen bytes, no padding, Next-Header 0x05.\<close>

definition ex_compressed :: "u8 list" where
  "ex_compressed = [0x1a, 0x20, 0x20, 0x20, 0x20, 0x20, 0x20, 0x20, 0x20, 0x20, 0xf7, 0x01,
                    0x00, 0x11, 0x00, 0x00, 0, 5]"

text \<open>
  Variants of the collaborators: a decompression adapter that produces 2000 bytes, one
  that stops after the first byte of its input, a keepalive decision that finds the peer dead,
  and a probe-send action that does not open the socket.
\<close>

definition ex_env_big :: env where
  "ex_env_big = ex_env\<lparr>av_lzo1x_decode := (\<lambda>cap inp inlen. (0, replicate 2000 0x20, 0))\<rparr>"

definition ex_env_bad_lzo :: env where
  "ex_env_bad_lzo = ex_env\<lparr>av_lzo1x_decode := (\<lambda>cap inp inlen. (0, [0x20], inlen - 1))\<rparr>"

definition ex_env_dead :: env where
  "ex_env_dead = ex_env\<lparr>keepalive_action := (\<lambda>k t. (KA_DPD_DEAD, k, t))\<rparr>"

definition ex_env_quiet :: env where
  "ex_env_quiet = ex_env\<lparr>udp_send_probes := Some (\<lambda>v. v\<lparr>new_dtls_started := 1010\<rparr>)\<rparr>"

text \<open>
  A probe-send action that, on opening the socket, marks the session as sleeping until
  an answer arrives; and a close action that also discards what was waiting to be sent.
\<close>

definition ex_env_reopen :: env where
  "ex_env_reopen =
     ex_env\<lparr>udp_send_probes :=
              Some (\<lambda>v. if dtls_fd v = - 1 then v\<lparr>dtls_fd := 4, dtls_state := DTLS_SLEEPING\<rparr>
                         else v)\<rparr>"

definition ex_env_dead_flush :: env where
  "ex_env_dead_flush =
     ex_env_dead\<lparr>udp_close := Some (\<lambda>v. v\<lparr>dtls_fd := - 1, outgoing_queue := []\<rparr>)\<rparr>"

text \<open>
  Worlds for the examples: one datagram waiting on the socket in a given state; a
  sleeping session with a closed socket, a pending reconnect and a datagram for the
  socket once it is open; three packets to send, the second send meeting backpressure.
\<close>

definition ex_world_rx :: "dtls_state \<Rightarrow> u8 list \<Rightarrow> world" where
  "ex_world_rx st d = ex_world\<lparr>vpn := ex_vpn\<lparr>dtls_state := st\<rparr>, sockq := [Datagram d]\<rparr>"

definition ex_world_closed :: world where
  "ex_world_closed =
     ex_world\<lparr>vpn := ex_vpn\<lparr>dtls_state := DTLS_SLEEPING, dtls_fd := - 1,
                            dtls_need_reconnect := True\<rparr>,
              sockq := [Datagram (ex_dgram 1 11 [0x45, 0, 4])]\<rparr>"

definition ex_world_tx :: world where
  "ex_world_tx =
     ex_world\<lparr>vpn := ex_vpn\<lparr>outgoing_queue := [ex_pkt [0x45], ex_pkt [0x46], ex_pkt [0x47]]\<rparr>,
              sendq := [Send_res 21 EINTR, Send_res (- 1) EAGAIN]\<rparr>"

text \<open>The packets to send again, with the first send meeting backpressure.\<close>

definition ex_world_tx_blocked :: world where
  "ex_world_tx_blocked = ex_world_tx\<lparr>sendq := [Send_res (- 1) EWOULDBLOCK]\<rparr>"

lemmas ex_defs = ex_env_def ex_world_def ex_vpn_def ex_dgram_def ex_pkt_def ex_compressed_def
  ex_env_big_def
  ex_env_bad_lzo_def ex_env_dead_def ex_env_quiet_def ex_world_rx_def ex_world_closed_def
  ex_world_tx_def ex_env_reopen_def ex_env_dead_flush_def ex_world_tx_blocked_def

lemmas model_defs = esp_mainloop_def esp_sleep_probe_def esp_keepalive_tx_def esp_recv_one_def
  esp_rx_process_def esp_rx_route_def esp_rx_trailer_def esp_rx_deliver_def esp_rx_lzo_def
  esp_rx_alloc_def esp_tx_one_def malloc_def send_def put_pkt_def queue_incoming_def
  monitor_write_fd_def unmonitor_write_fd_def call_send_probes_def call_udp_close_def
  time_NULL_def pkt_esp_spi_def pkt_esp_seq_def ntohl_def byte_at_def pkt_byte_def
  call_catch_probe_def new_events_def Let_def

section \<open>Basic facts about the primitive operations\<close>

lemma log_ev_simps [simp]:
  "vpn (log_ev e w) = vpn w"
  "trace (log_ev e w) = trace w @ [e]"
  "sockq (log_ev e w) = sockq w"
  "sendq (log_ev e w) = sendq w"
  "mallocq (log_ev e w) = mallocq w"
  by (simp_all add: log_ev_def)

lemma vpn_progress_simps [simp]:
  "vpn (vpn_progress l m w) = vpn w"
  "trace (vpn_progress l m w) = trace w @ [Progress l m]"
  "sockq (vpn_progress l m w) = sockq w"
  "sendq (vpn_progress l m w) = sendq w"
  "mallocq (vpn_progress l m w) = mallocq w"
  by (simp_all add: vpn_progress_def)

lemma upd_vpn_simps [simp]:
  "vpn (upd_vpn f w) = f (vpn w)"
  "trace (upd_vpn f w) = trace w"
  "sockq (upd_vpn f w) = sockq w"
  "sendq (upd_vpn f w) = sendq w"
  "mallocq (upd_vpn f w) = mallocq w"
  by (simp_all add: upd_vpn_def)

lemma print_esp_keys_vpn [simp]: "vpn (snd (print_esp_keys w name e)) = vpn w"
  by (simp add: print_esp_keys_def Let_def)

lemma call_send_probes_vpn:
  "vpn (call_send_probes E w) =
     (case udp_send_probes E of None \<Rightarrow> vpn w | Some f \<Rightarrow> f (vpn w))"
  by (simp add: call_send_probes_def split: option.splits)

lemma malloc_frame [simp]:
  "vpn (snd (malloc w)) = vpn w"
  "sockq (snd (malloc w)) = sockq w"
  "sendq (snd (malloc w)) = sendq w"
  "trace (snd (malloc w)) = trace w @ [Malloc (fst (malloc w))]"
  by (simp_all add: malloc_def split: list.splits)


lemma send_result:
  "send w bs = (r, w') \<Longrightarrow>
     vpn w' = vpn w \<and> trace w' = trace w @ [Send bs r] \<and> sockq w' = sockq w \<and> mallocq w' = mallocq w"
  by (auto simp: send_def split: list.splits)

section \<open>Traces grow\<close>

lemma emits_refl [simp]: "emits P w w"
  by (simp add: emits_def)

lemma emits_trans: "emits P w w1 \<Longrightarrow> emits P w1 w2 \<Longrightarrow> emits P w w2"
  by (auto simp: emits_def)

lemma emits_log_ev [simp]: "emits P w w1 \<Longrightarrow> P e \<Longrightarrow> emits P w (log_ev e w1)"
  by (auto simp: emits_def)

lemma emits_vpn_progress [simp]:
  "emits P w w1 \<Longrightarrow> P (Progress l m) \<Longrightarrow> emits P w (vpn_progress l m w1)"
  by (simp add: vpn_progress_def)

lemma emits_upd_vpn [simp]: "emits P w (upd_vpn f w1) \<longleftrightarrow> emits P w w1"
  by (simp add: emits_def)

lemma emits_weaken: "emits P w w' \<Longrightarrow> (\<And>e. P e \<Longrightarrow> Q e) \<Longrightarrow> emits Q w w'"
  by (auto simp: emits_def list_all_iff)


section \<open>The receive pipeline\<close>

subsection \<open>What each step adds to the trace\<close>

lemma esp_rx_trailer_emits: "emits rx_tail_event w (fst (esp_rx_trailer len p w))"
  by (simp add: esp_rx_trailer_def Let_def put_pkt_def)

lemma esp_rx_lzo_emits: "emits rx_tail_event w (esp_rx_lzo E m len p w)"
  by (cases "malloc w")
     (auto simp: esp_rx_lzo_def Let_def put_pkt_def queue_incoming_def
        emits_def malloc_def split: prod.splits list.splits)

lemma esp_rx_deliver_emits: "emits rx_tail_event w (esp_rx_deliver E m len p w)"
proof -
  have "emits rx_tail_event w w2 \<Longrightarrow> emits rx_tail_event w (esp_rx_lzo E m len p w2)" for w2
    using esp_rx_lzo_emits emits_trans by blast
  then show ?thesis
    by (simp add: esp_rx_deliver_def call_catch_probe_def Let_def queue_incoming_def
          split: option.splits)
qed

lemma esp_rx_route_incoming [simp]:
  "incoming_queue (vpn (fst (esp_rx_route E cur p w))) = incoming_queue (vpn w)"
  by (simp add: esp_rx_route_def Let_def put_pkt_def split: prod.splits)

lemma esp_rx_trailer_accepts:
  "snd (esp_rx_trailer len p w) \<noteq> None \<longleftrightarrow>
     pkt_byte p (len - 1) \<in> {0x04, 0x29, 0x05}
     \<and> uint (pkt_byte p (len - 2)) + 2 < len
     \<and> pad_scan (pkt_data p) (len - 2 - uint (pkt_byte p (len - 2)))
          (uint (pkt_byte p (len - 2))) 0 = uint (pkt_byte p (len - 2))"
  by (auto simp add: esp_rx_trailer_def Let_def)

declare not_None_eq [simp del]


lemma esp_rx_process_tail:
  "esp_rx_route E cur p w = (w1, Some p') \<Longrightarrow>
     emits rx_tail_event w1 (esp_rx_process E cur m len p w)"
  using esp_rx_trailer_emits [of w1 len p'] esp_rx_deliver_emits emits_trans
  by (cases "esp_rx_trailer len p' w1") (fastforce simp: esp_rx_process_def split: option.splits)

lemma rx_tail_one: "rx_tail_event e \<Longrightarrow> rx_one_event e"
  by (cases e) simp_all

lemma rx_one_rx: "rx_one_event e \<Longrightarrow> rx_event e"
  by (cases e) simp_all

lemma rx_one_not_recv: "rx_one_event e \<Longrightarrow> \<not> recv_pos e"
  by (cases e) simp_all

lemma rx_one_list:
  "list_all rx_one_event evs \<Longrightarrow> \<not> list_ex recv_pos evs \<and> list_all rx_event evs"
  using rx_one_not_recv rx_one_rx by (auto simp: list_ex_iff list_all_iff)

lemma esp_rx_route_emits: "emits rx_one_event w (fst (esp_rx_route E cur p w))"
  by (simp add: esp_rx_route_def Let_def put_pkt_def split: prod.splits)

lemma esp_rx_process_emits: "emits rx_one_event w (esp_rx_process E cur m len p w)"
proof (cases "esp_rx_route E cur p w")
  case (Pair w1 o1)
  have r: "emits rx_one_event w w1" using esp_rx_route_emits [of w E cur p] Pair by simp
  show ?thesis
  proof (cases o1)
    case None
    then show ?thesis using Pair r by (simp add: esp_rx_process_def)
  next
    case (Some p')
    then have "emits rx_tail_event w1 (esp_rx_process E cur m len p w)"
      using Pair esp_rx_process_tail by simp
    then show ?thesis using r emits_trans emits_weaken rx_tail_one by blast
  qed
qed

lemma esp_recv_one_emits: "emits rx_one_event w (esp_recv_one E cur m p0 d w)"
proof -
  have "emits rx_one_event w w1 \<Longrightarrow> emits rx_one_event w (esp_rx_process E cur m len p w1)"
    for w1 len p
    using esp_rx_process_emits emits_trans by blast
  then show ?thesis by (simp add: esp_recv_one_def Let_def put_pkt_def)
qed

lemma esp_rx_alloc_emits: "emits rx_one_event w (fst (esp_rx_alloc w))"
  by (auto simp: esp_rx_alloc_def put_pkt_def malloc_def emits_def split: option.splits list.splits)

subsection \<open>Routing by SPI\<close>




subsection \<open>Trailer and padding\<close>

lemma pad_scan_complete:
  "i \<le> padlen \<Longrightarrow>
     pad_scan d plen padlen i = padlen
       \<longleftrightarrow> (\<forall>j. i \<le> j \<and> j < padlen \<longrightarrow> uint (byte_at d (plen + j)) = j + 1)"
proof (induction d plen padlen i rule: pad_scan.induct)
  case (1 d plen padlen i)
  show ?case
  proof (cases "i < padlen")
    case False
    with "1.prems" show ?thesis by (subst pad_scan.simps) simp
  next
    case lt: True
    show ?thesis
    proof (cases "uint (byte_at d (plen + i)) = i + 1")
      case False
      then have "pad_scan d plen padlen i = i" using lt by (subst pad_scan.simps) simp
      with lt False show ?thesis by auto
    next
      case True
      then have eq: "pad_scan d plen padlen i = pad_scan d plen padlen (i + 1)"
        using lt by (subst pad_scan.simps) simp
      have "pad_scan d plen padlen (i + 1) = padlen
              \<longleftrightarrow> (\<forall>j. i + 1 \<le> j \<and> j < padlen \<longrightarrow> uint (byte_at d (plen + j)) = j + 1)"
        using "1.IH" lt True by simp
      moreover have "(\<forall>j. i + 1 \<le> j \<and> j < padlen \<longrightarrow> uint (byte_at d (plen + j)) = j + 1)
              \<longleftrightarrow> (\<forall>j. i \<le> j \<and> j < padlen \<longrightarrow> uint (byte_at d (plen + j)) = j + 1)"
        (is "?A \<longleftrightarrow> ?B")
      proof
        assume a: ?A
        show ?B
        proof (intro allI impI)
          fix j assume j: "i \<le> j \<and> j < padlen"
          then consider "j = i" | "i + 1 \<le> j" by linarith
          then show "uint (byte_at d (plen + j)) = j + 1"
            using a True j by cases simp_all
        qed
      next
        assume b: ?B
        show ?A
        proof (intro allI impI)
          fix j assume "i + 1 \<le> j \<and> j < padlen"
          then have "i \<le> j \<and> j < padlen" by simp
          with b show "uint (byte_at d (plen + j)) = j + 1" by blast
        qed
      qed
      ultimately show ?thesis using eq by simp
    qed
  qed
qed

text \<open>
  C4. A payload that was decrypted and carries an accepted Next-Header byte: when its
  length is at most the padding-length byte plus 2, all that follows the decryption is
  the log of an invalid padding length with that byte, and the inbound queue is as
  before; a payload that passes the trailer checks is longer than the padding length
  plus 2. For a payload of one byte the padding-length byte is the byte before it, the
  last one of the header.
\<close>

theorem esp_rx_padding_length:
  assumes "esp_rx_route E cur p w = (w2, Some p2)"
      and "pkt_byte p2 (len - 1) \<in> {0x04, 0x05, 0x29}"
  shows "(len \<le> uint (pkt_byte p2 (len - 2)) + 2 \<longrightarrow>
            esp_rx_process E cur m len p w
              = vpn_progress PRG_ERR (Msg_bad_pad_length (pkt_byte p2 (len - 2))) w2
            \<and> incoming_queue (vpn (esp_rx_process E cur m len p w)) = incoming_queue (vpn w))
         \<and> (snd (esp_rx_trailer len p2 w2) \<noteq> None \<longrightarrow>
              uint (pkt_byte p2 (len - 2)) + 2 < len)"
proof -
  have q: "incoming_queue (vpn w2) = incoming_queue (vpn w)"
    using esp_rx_route_incoming [of E cur p w] assms(1) by simp
  have "len \<le> uint (pkt_byte p2 (len - 2)) + 2 \<Longrightarrow>
          esp_rx_trailer len p2 w2
            = (vpn_progress PRG_ERR (Msg_bad_pad_length (pkt_byte p2 (len - 2))) w2, None)"
    using assms(2) by (auto simp: esp_rx_trailer_def Let_def)
  then show ?thesis
    using assms(1) q by (simp add: esp_rx_process_def esp_rx_trailer_accepts)
qed

theorem esp_rx_padding_length_witness:
  "esp_rx_process ex_env 0 2048 1 (ex_pkt [4]) ex_world
     = vpn_progress PRG_ERR (Msg_bad_pad_length 11)
         (fst (esp_rx_route ex_env 0 (ex_pkt [4]) ex_world))
   \<and> esp_rx_process ex_env 0 2048 3 (ex_pkt [0x45, 7, 4]) ex_world
     = vpn_progress PRG_ERR (Msg_bad_pad_length 7)
         (fst (esp_rx_route ex_env 0 (ex_pkt [0x45, 7, 4]) ex_world))
   \<and> incoming_queue (vpn (esp_rx_process ex_env 0 2048 3 (ex_pkt [0x45, 7, 4]) ex_world)) = []
   \<and> snd (esp_rx_trailer 3 (ex_pkt [0x45, 0, 4])
            (fst (esp_rx_route ex_env 0 (ex_pkt [0x45, 0, 4]) ex_world))) \<noteq> None"
  using esp_rx_padding_length [of ex_env 0 "ex_pkt [4]" ex_world
              "fst (esp_rx_route ex_env 0 (ex_pkt [4]) ex_world)" "ex_pkt [4]" 1 2048]
        esp_rx_padding_length [of ex_env 0 "ex_pkt [0x45, 7, 4]" ex_world
              "fst (esp_rx_route ex_env 0 (ex_pkt [0x45, 7, 4]) ex_world)" "ex_pkt [0x45, 7, 4]"
              3 2048]
        esp_rx_padding_length [of ex_env 0 "ex_pkt [0x45, 0, 4]" ex_world
              "fst (esp_rx_route ex_env 0 (ex_pkt [0x45, 0, 4]) ex_world)" "ex_pkt [0x45, 0, 4]"
              3 2048]
  by (simp add: ex_defs model_defs pad_scan.simps)

text \<open>
  C5. A decrypted payload with an accepted Next-Header byte and a valid padding length
  \<open>N\<close>: it passes the trailer checks exactly when the \<open>N\<close> bytes before the
  padding-length byte are 1, 2, ..., \<open>N\<close> in this order; otherwise the packet is logged
  as invalid padding bytes and nothing is enqueued. With \<open>N = 0\<close> it passes.
\<close>

theorem esp_rx_padding_bytes:
  assumes "esp_rx_route E cur p w = (w2, Some p2)"
      and "byte_at (pkt_data p2) (len - 1) \<in> {0x04, 0x05, 0x29}"
      and "uint (byte_at (pkt_data p2) (len - 2)) + 2 < len"
  shows "(snd (esp_rx_trailer len p2 w2) \<noteq> None \<longleftrightarrow>
            (\<forall>j. 0 \<le> j \<and> j < uint (byte_at (pkt_data p2) (len - 2)) \<longrightarrow>
                 uint (byte_at (pkt_data p2) (len - 2 - uint (byte_at (pkt_data p2) (len - 2)) + j)) = j + 1))
         \<and> (snd (esp_rx_trailer len p2 w2) = None \<longrightarrow>
              esp_rx_process E cur m len p w
                = vpn_progress PRG_ERR Msg_bad_pad_bytes
                    (put_pkt (p2\<lparr>pkt_len := len - 2 - uint (byte_at (pkt_data p2) (len - 2))\<rparr>) w2)
              \<and> incoming_queue (vpn (esp_rx_process E cur m len p w)) = incoming_queue (vpn w))
         \<and> (byte_at (pkt_data p2) (len - 2) = 0 \<longrightarrow>
              esp_rx_trailer len p2 w2 = (put_pkt (p2\<lparr>pkt_len := len - 2\<rparr>) w2, Some (p2\<lparr>pkt_len := len - 2\<rparr>)))"
proof -
  let ?N = "uint (byte_at (pkt_data p2) (len - 2))"
  have "0 \<le> ?N" by simp
  then have pos: "0 \<le> len - 2" "0 \<le> len - 1" using assms(3) by linarith+
  have pb: "pkt_byte p2 (len - 1) = byte_at (pkt_data p2) (len - 1)"
    "pkt_byte p2 (len - 2) = byte_at (pkt_data p2) (len - 2)"
    using pos by (simp_all add: pkt_byte_def)
  have q: "incoming_queue (vpn w2) = incoming_queue (vpn w)"
    using esp_rx_route_incoming [of E cur p w] assms(1) by simp
  have scan: "pad_scan (pkt_data p2) (len - 2 - ?N) ?N 0 = ?N \<longleftrightarrow>
        (\<forall>j. 0 \<le> j \<and> j < ?N \<longrightarrow> uint (byte_at (pkt_data p2) (len - 2 - ?N + j)) = j + 1)"
    by (rule pad_scan_complete) simp
  have acc: "snd (esp_rx_trailer len p2 w2) \<noteq> None \<longleftrightarrow> pad_scan (pkt_data p2) (len - 2 - ?N) ?N 0 = ?N"
    using assms(2,3) by (auto simp: esp_rx_trailer_accepts pb)
  have rej: "snd (esp_rx_trailer len p2 w2) = None \<Longrightarrow>
        esp_rx_trailer len p2 w2
          = (vpn_progress PRG_ERR Msg_bad_pad_bytes (put_pkt (p2\<lparr>pkt_len := len - 2 - ?N\<rparr>) w2), None)"
    using assms(2,3) by (auto simp: esp_rx_trailer_def Let_def pb split: if_splits)
  have zero: "byte_at (pkt_data p2) (len - 2) = 0 \<Longrightarrow>
        esp_rx_trailer len p2 w2 = (put_pkt (p2\<lparr>pkt_len := len - 2\<rparr>) w2, Some (p2\<lparr>pkt_len := len - 2\<rparr>))"
    using assms(2,3) by (auto simp: esp_rx_trailer_def Let_def pb pad_scan.simps [of _ _ 0 0])
  show ?thesis
    using acc scan rej zero assms(1) q
    by (auto simp: esp_rx_process_def put_pkt_def)
qed

theorem esp_rx_padding_bytes_witness:
  "snd (esp_rx_trailer 6 (ex_pkt [0x45, 1, 2, 3, 3, 4])
          (fst (esp_rx_route ex_env 0 (ex_pkt [0x45, 1, 2, 3, 3, 4]) ex_world))) \<noteq> None
   \<and> esp_rx_process ex_env 0 2048 6 (ex_pkt [0x45, 1, 9, 3, 3, 4]) ex_world
       = vpn_progress PRG_ERR Msg_bad_pad_bytes
           (put_pkt ((ex_pkt [0x45, 1, 9, 3, 3, 4])\<lparr>pkt_len := 1\<rparr>)
              (fst (esp_rx_route ex_env 0 (ex_pkt [0x45, 1, 9, 3, 3, 4]) ex_world)))
   \<and> snd (esp_rx_trailer 3 (ex_pkt [0x45, 0, 4])
          (fst (esp_rx_route ex_env 0 (ex_pkt [0x45, 0, 4]) ex_world)))
       = Some ((ex_pkt [0x45, 0, 4])\<lparr>pkt_len := 1\<rparr>)"
  using esp_rx_padding_bytes [of ex_env 0 "ex_pkt [0x45, 1, 2, 3, 3, 4]" ex_world
              "fst (esp_rx_route ex_env 0 (ex_pkt [0x45, 1, 2, 3, 3, 4]) ex_world)"
              "ex_pkt [0x45, 1, 2, 3, 3, 4]" 6 2048]
        esp_rx_padding_bytes [of ex_env 0 "ex_pkt [0x45, 1, 9, 3, 3, 4]" ex_world
              "fst (esp_rx_route ex_env 0 (ex_pkt [0x45, 1, 9, 3, 3, 4]) ex_world)"
              "ex_pkt [0x45, 1, 9, 3, 3, 4]" 6 2048]
        esp_rx_padding_bytes [of ex_env 0 "ex_pkt [0x45, 0, 4]" ex_world
              "fst (esp_rx_route ex_env 0 (ex_pkt [0x45, 0, 4]) ex_world)"
              "ex_pkt [0x45, 0, 4]" 3 2048]
  by (simp add: ex_defs model_defs pad_scan.simps)

subsection \<open>Decompression\<close>




subsection \<open>The receive loop\<close>

lemma esp_recv_loop_shape:
  "esp_recv_loop E cur m wd w q = (wd', w') \<Longrightarrow>
     \<exists>evs. trace w' = trace w @ evs \<and> list_all rx_event evs
          \<and> (list_ex recv_pos evs \<longrightarrow> wd' = 1) \<and> (\<not> list_ex recv_pos evs \<longrightarrow> wd' = wd)"
proof (induction E cur m wd w q arbitrary: wd' w' rule: esp_recv_loop.induct)
  case (1 E cur m wd w)
  obtain w1 o1 where a: "esp_rx_alloc w = (w1, o1)" by (cases "esp_rx_alloc w") auto
  then obtain evs where e: "trace w1 = trace w @ evs" "list_all rx_one_event evs"
    using esp_rx_alloc_emits [of w] by (auto simp: emits_def)
  have n: "\<not> list_ex recv_pos evs" "list_all rx_event evs"
    using e(2) rx_one_list by simp_all
  show ?case using "1.prems" a e(1) n
    by (cases o1) (auto simp: list_ex_iff)
next
  case (2 E cur m wd w e rest)
  obtain w1 o1 where a: "esp_rx_alloc w = (w1, o1)" by (cases "esp_rx_alloc w") auto
  then obtain evs where e: "trace w1 = trace w @ evs" "list_all rx_one_event evs"
    using esp_rx_alloc_emits [of w] by (auto simp: emits_def)
  have n: "\<not> list_ex recv_pos evs" "list_all rx_event evs"
    using e(2) rx_one_list by simp_all
  show ?case using "2.prems" a e(1) n
    by (cases o1) (auto simp: list_ex_iff)
next
  case (3 E cur m wd w d rest)
  obtain w1 o1 where a: "esp_rx_alloc w = (w1, o1)" by (cases "esp_rx_alloc w") auto
  then obtain evs where e: "trace w1 = trace w @ evs" "list_all rx_one_event evs"
    using esp_rx_alloc_emits [of w] by (auto simp: emits_def)
  have n: "\<not> list_ex recv_pos evs" "list_all rx_event evs"
    using e(2) rx_one_list by simp_all
  show ?case
  proof (cases o1)
    case None
    then show ?thesis using "3.prems" a e(1) n by (auto simp: list_ex_iff)
  next
    case (Some p)
    let ?d' = "take (nat (m + pkt_trailer (vpn w1) + int (sizeof_esp E))) d"
    let ?w2 = "log_ev (Recv (int (length ?d'))) (w1\<lparr>sockq := rest\<rparr>)"
    let ?w3 = "esp_recv_one E cur m p ?d' ?w2"
    have eq: "esp_recv_loop E cur m wd w (Datagram d # rest)
                = (if int (length ?d') \<le> 0 then (wd, ?w2)
                   else esp_recv_loop E cur m 1 ?w3 rest)"
      by (simp only: esp_recv_loop.simps a Some Let_def prod.case option.case)
    show ?thesis
    proof (cases "int (length ?d') \<le> 0")
      case True
      then have "wd' = wd" "w' = ?w2" using "3.prems" eq by (simp_all only: if_True prod.inject)
      then show ?thesis using e(1) n by (intro exI [of _ "evs @ [Recv (int (length ?d'))]"]) (use True in auto)
    next
      case False
      have rec: "esp_recv_loop E cur m 1 ?w3 rest = (wd', w')"
        using "3.prems" eq False by (simp only: if_False)
      obtain evs1 where e1: "trace ?w3 = trace ?w2 @ evs1" "list_all rx_one_event evs1"
        using esp_recv_one_emits [of ?w2 E cur m p ?d'] by (auto simp: emits_def)
      from "3.IH" [OF a [symmetric] Some refl refl refl _ rec] False
      obtain evs2 where e2: "trace w' = trace ?w3 @ evs2" "list_all rx_event evs2"
        "wd' = 1"
        by (cases "list_ex recv_pos evs2") auto
      have "trace w' = trace w @ (evs @ [Recv (int (length ?d'))] @ evs1 @ evs2)"
        using e(1) e1(1) e2(1) by simp
      moreover have "list_all rx_event (evs @ [Recv (int (length ?d'))] @ evs1 @ evs2)"
        using n(2) e1(2) e2(2) rx_one_rx by (auto simp: list_all_iff)
      moreover have "list_ex recv_pos (evs @ [Recv (int (length ?d'))] @ evs1 @ evs2)"
        using False by simp
      ultimately show ?thesis using e2(3) by (metis (full_types))
    qed
  qed
qed

section \<open>The transmit drain\<close>

lemma esp_tx_one_stop:
  assumes "esp_tx_one E this w = (True, w')"
  shows "\<exists>len this' bs r. trace w' = trace w @ [Encrypt this len, Send bs r, Free this']
           \<and> would_block r"
    and "dtls_write_monitored (vpn w')"
    and "outgoing_queue (vpn w') = outgoing_queue (vpn w)"
  using assms
  by (auto simp: esp_tx_one_def Let_def monitor_write_fd_def
      split: prod.splits send_res.splits if_splits dest!: send_result)

lemma esp_tx_one_go:
  assumes "esp_tx_one E this w = (False, w')"
  shows "\<exists>evs. trace w' = trace w @ evs \<and> \<not> list_ex blocked_send evs \<and> list_ex (\<lambda>e. \<exists>len. e = Encrypt this len) evs"
    and "dtls_write_monitored (vpn w') = dtls_write_monitored (vpn w)"
    and "outgoing_queue (vpn w') = outgoing_queue (vpn w)"
  using assms
  by (auto simp: esp_tx_one_def Let_def monitor_write_fd_def
      split: prod.splits send_res.splits if_splits dest!: send_result)

lemma esp_tx_loop_shape:
  "esp_tx_loop E wd w q = (r, w') \<Longrightarrow>
     \<exists>tail. trace w' = trace w @ tail \<and>
       (if list_ex blocked_send tail then tx_blocked_shape wd q r w' tail
        else (q \<noteq> [] \<longrightarrow> outgoing_queue (vpn w') = []) \<and>
             dtls_write_monitored (vpn w') = dtls_write_monitored (vpn w) \<and>
             r = (if q = [] then wd else 1))"
proof (induction q arbitrary: wd w)
  case Nil
  then show ?case by simp
next
  case (Cons this rest)
  let ?w0 = "upd_vpn (\<lambda>v. v\<lparr>outgoing_queue := rest\<rparr>) w"
  obtain b w1 where one: "esp_tx_one E this ?w0 = (b, w1)"
    by (cases "esp_tx_one E this ?w0") auto
  show ?case
  proof (cases b)
    case True
    then have res: "r = wd" "w' = w1" using Cons.prems one by simp_all
    have one': "esp_tx_one E this ?w0 = (True, w1)" using one True by simp
    from esp_tx_one_stop [OF one']
    obtain len this' bs sr where
      tr: "trace w1 = trace w @ [Encrypt this len, Send bs sr, Free this']" and
      wb: "would_block sr" and mon: "dtls_write_monitored (vpn w1)" and
      oq: "outgoing_queue (vpn w1) = rest"
      by auto
    have "tx_blocked_shape wd (this # rest) r w' [Encrypt this len, Send bs sr, Free this']"
      unfolding tx_blocked_shape_def using res wb mon oq
      by (intro conjI exI [of _ "[]"] exI [of _ this] exI [of _ rest] exI [of _ len]
            exI [of _ bs] exI [of _ sr] exI [of _ this']) simp_all
    then show ?thesis using tr res wb by (intro exI [of _ "[Encrypt this len, Send bs sr, Free this']"]) simp
  next
    case False
    then have rec: "esp_tx_loop E 1 w1 rest = (r, w')" using Cons.prems one by simp
    have one': "esp_tx_one E this ?w0 = (False, w1)" using one False by simp
    from esp_tx_one_go [OF one']
    obtain evs1 where tr1: "trace w1 = trace w @ evs1" and nb1: "\<not> list_ex blocked_send evs1"
      and mon1: "dtls_write_monitored (vpn w1) = dtls_write_monitored (vpn w)"
      and oq1: "outgoing_queue (vpn w1) = rest"
      by auto
    from Cons.IH [OF rec] obtain tail' where
      tr': "trace w' = trace w1 @ tail'" and
      sh': "if list_ex blocked_send tail' then tx_blocked_shape 1 rest r w' tail'
            else (rest \<noteq> [] \<longrightarrow> outgoing_queue (vpn w') = []) \<and>
                 dtls_write_monitored (vpn w') = dtls_write_monitored (vpn w1) \<and>
                 r = (if rest = [] then 1 else 1)"
      by blast
    have tr: "trace w' = trace w @ (evs1 @ tail')" using tr1 tr' by simp
    have ex: "list_ex blocked_send (evs1 @ tail') = list_ex blocked_send tail'"
      using nb1 by (auto simp: list_ex_iff)
    show ?thesis
    proof (cases "list_ex blocked_send tail'")
      case True
      with sh' have "tx_blocked_shape 1 rest r w' tail'" by simp
      then obtain pre this2 rest2 evs len bs sr this' where
        s: "dtls_write_monitored (vpn w')" "rest = pre @ this2 # rest2"
           "outgoing_queue (vpn w') = rest2"
           "tail' = evs @ [Encrypt this2 len, Send bs sr, Free this']"
           "would_block sr" "\<not> list_ex blocked_send evs" "r = 1"
        unfolding tx_blocked_shape_def by (auto split: if_splits)
      have "tx_blocked_shape wd (this # rest) r w' (evs1 @ tail')"
        unfolding tx_blocked_shape_def using s nb1
        by (intro conjI exI [of _ "this # pre"] exI [of _ this2] exI [of _ rest2]
              exI [of _ "evs1 @ evs"] exI [of _ len] exI [of _ bs] exI [of _ sr]
              exI [of _ this']) (auto simp: list_ex_iff)
      then show ?thesis using tr ex True by (intro exI [of _ "evs1 @ tail'"]) simp
    next
      case False
      with sh' have n: "rest \<noteq> [] \<longrightarrow> outgoing_queue (vpn w') = []"
        "dtls_write_monitored (vpn w') = dtls_write_monitored (vpn w1)" "r = 1"
        by simp_all
      have "outgoing_queue (vpn w') = []"
      proof (cases rest)
        case Nil
        then have "w' = w1" using rec by simp
        then show ?thesis using oq1 Nil by simp
      next
        case (Cons a list)
        then show ?thesis using n(1) by simp
      qed
      then show ?thesis using tr ex False n mon1 by (intro exI [of _ "evs1 @ tail'"]) simp
    qed
  qed
qed

text \<open>
  C3. When a send of the transmit drain meets backpressure (a negative result with
  \<^verbatim>\<open>ENOBUFS\<close>, \<^verbatim>\<open>EAGAIN\<close> or \<^verbatim>\<open>EWOULDBLOCK\<close>), write monitoring is armed and the drain ends
  there: the trace ends with the encryption of the packet dequeued last, that one send
  and the release of the packet, no earlier send met backpressure, and the queue holds
  exactly the packets that were behind it. The packet itself is in no queue.
\<close>

theorem esp_tx_backpressure:
  assumes "esp_tx_loop E wd w q = (r, w')"
      and "list_ex blocked_send (new_events w w')"
  shows "dtls_write_monitored (vpn w') \<and>
     (\<exists>pre this rest evs len bs sr this'.
        q = pre @ this # rest \<and> outgoing_queue (vpn w') = rest \<and>
        new_events w w' = evs @ [Encrypt this len, Send bs sr, Free this'] \<and>
        would_block sr \<and> \<not> list_ex blocked_send evs \<and>
        r = (if pre = [] then wd else 1))"
proof -
  from esp_tx_loop_shape [OF assms(1)] obtain tail where
    tail: "trace w' = trace w @ tail" and
    sh: "if list_ex blocked_send tail then tx_blocked_shape wd q r w' tail
         else (q \<noteq> [] \<longrightarrow> outgoing_queue (vpn w') = []) \<and>
              dtls_write_monitored (vpn w') = dtls_write_monitored (vpn w) \<and>
              r = (if q = [] then wd else 1)"
    by blast
  have ne: "new_events w w' = tail" using tail by (simp add: new_events_def)
  with assms(2) sh have "tx_blocked_shape wd q r w' tail" by simp
  then show ?thesis unfolding tx_blocked_shape_def ne .
qed

theorem esp_tx_backpressure_witness:
  "fst (esp_tx_loop ex_env 0 ex_world_tx (outgoing_queue (vpn ex_world_tx))) = 1
   \<and> outgoing_queue (vpn (snd (esp_tx_loop ex_env 0 ex_world_tx (outgoing_queue (vpn ex_world_tx)))))
       = [ex_pkt [0x47]]
   \<and> dtls_write_monitored (vpn (snd (esp_tx_loop ex_env 0 ex_world_tx (outgoing_queue (vpn ex_world_tx)))))
   \<and> filter blocked_send (new_events ex_world_tx
         (snd (esp_tx_loop ex_env 0 ex_world_tx (outgoing_queue (vpn ex_world_tx)))))
       = [Send [0, 0, 0, 1, 0, 0, 0, 11, 0x46, 1, 2, 3, 4, 5, 6, 7, 8, 9, 10, 11, 12]
            (Send_res (- 1) EAGAIN)]"
  using esp_tx_backpressure [of ex_env 0 ex_world_tx "outgoing_queue (vpn ex_world_tx)"
      "fst (esp_tx_loop ex_env 0 ex_world_tx (outgoing_queue (vpn ex_world_tx)))"
      "snd (esp_tx_loop ex_env 0 ex_world_tx (outgoing_queue (vpn ex_world_tx)))"]
  by (simp add: ex_defs model_defs)

section \<open>The main loop as a whole\<close>

lemma esp_sleep_probe_shape:
  "\<exists>ep. trace (snd (esp_sleep_probe E w t)) = trace w @ ep \<and> list_all probe_event ep"
  by (simp add: esp_sleep_probe_def call_send_probes_def split: prod.splits option.splits)

lemma esp_tx_one_events:
  "esp_tx_one E this w = (b, w') \<Longrightarrow>
     \<exists>evs. trace w' = trace w @ evs \<and> list_all tx_event evs \<and> list_ex is_encrypt evs"
  by (auto simp: esp_tx_one_def Let_def monitor_write_fd_def
      split: prod.splits send_res.splits if_splits dest!: send_result)

lemma esp_tx_loop_events:
  "esp_tx_loop E wd w q = (r, w') \<Longrightarrow>
     \<exists>evs. trace w' = trace w @ evs \<and> list_all tx_event evs
          \<and> (r = wd \<or> r = 1 \<and> list_ex is_encrypt evs) \<and> (wd = 1 \<longrightarrow> r = 1)"
proof (induction q arbitrary: wd w)
  case Nil
  then show ?case by simp
next
  case (Cons this rest)
  let ?w0 = "upd_vpn (\<lambda>v. v\<lparr>outgoing_queue := rest\<rparr>) w"
  obtain b w1 where one: "esp_tx_one E this ?w0 = (b, w1)"
    by (cases "esp_tx_one E this ?w0") auto
  from esp_tx_one_events [OF one] obtain evs1 where
    e1: "trace w1 = trace w @ evs1" "list_all tx_event evs1" "list_ex is_encrypt evs1"
    by auto
  show ?case
  proof (cases b)
    case True
    then have "r = wd" "w' = w1" using Cons.prems one by simp_all
    then show ?thesis using e1 by auto
  next
    case False
    then have rec: "esp_tx_loop E 1 w1 rest = (r, w')" using Cons.prems one by simp
    from Cons.IH [OF rec] obtain evs2 where
      e2: "trace w' = trace w1 @ evs2" "list_all tx_event evs2" "r = 1"
      by auto
    have "trace w' = trace w @ (evs1 @ evs2)" using e1(1) e2(1) by simp
    moreover have "list_all tx_event (evs1 @ evs2)" using e1(2) e2(2) by simp
    moreover have "list_ex is_encrypt (evs1 @ evs2)" using e1(3) by simp
    ultimately show ?thesis using e2(3) by blast
  qed
qed

lemma esp_keepalive_tx_shape:
  assumes "esp_keepalive_tx E wd w t = (r, t', w')"
  shows "\<exists>ek. trace w' = trace w @ Keepalive (fst (keepalive_action E (dtls_times (vpn w)) t)) # ek
           \<and> list_all tx_event ek
           \<and> (fst (keepalive_action E (dtls_times (vpn w)) t) = KA_DPD_DEAD \<longrightarrow> r = 1)
           \<and> (fst (keepalive_action E (dtls_times (vpn w)) t) = KA_DPD \<longrightarrow> r = 1)
           \<and> (wd = 1 \<longrightarrow> r = 1)
           \<and> (r = wd \<or> r = 1 \<and> (list_ex is_encrypt ek
                 \<or> fst (keepalive_action E (dtls_times (vpn w)) t) = KA_DPD
                 \<or> fst (keepalive_action E (dtls_times (vpn w)) t) = KA_DPD_DEAD))"
proof -
  obtain ka kt t1 where k: "keepalive_action E (dtls_times (vpn w)) t = (ka, kt, t1)"
    by (cases "keepalive_action E (dtls_times (vpn w)) t") auto
  let ?w1 = "log_ev (Keepalive ka) (upd_vpn (\<lambda>v. v\<lparr>dtls_times := kt\<rparr>) w)"
  show ?thesis
  proof (cases "ka = KA_DPD_DEAD")
    case True
    then show ?thesis using assms k
      by (auto simp: esp_keepalive_tx_def Let_def call_send_probes_def call_udp_close_def
            split: option.splits)
  next
    case False
    define wdw where "wdw = (case ka of
                     KA_REKEY \<Rightarrow> (wd, vpn_progress PRG_ERR Msg_rekey_unimplemented ?w1)
                   | KA_DPD \<Rightarrow>
                       (1, call_send_probes E (vpn_progress PRG_DEBUG Msg_send_probes_dpd ?w1))
                   | KA_KEEPALIVE \<Rightarrow>
                       (wd, vpn_progress PRG_ERR Msg_keepalive_unimplemented ?w1)
                   | _ \<Rightarrow> (wd, ?w1))"
    let ?w2 = "unmonitor_write_fd (snd wdw)"
    have wd1: "fst wdw = (if ka = KA_DPD then 1 else wd)"
      by (cases ka) (simp_all add: wdw_def)
    have "\<exists>e0. trace ?w2 = trace w @ Keepalive ka # e0 \<and> list_all tx_event e0"
      by (cases ka)
         (simp_all add: wdw_def unmonitor_write_fd_def call_send_probes_def split: option.splits)
    then obtain e0 where e0: "trace ?w2 = trace w @ Keepalive ka # e0" "list_all tx_event e0"
      by blast
    have tx: "esp_tx_loop E (fst wdw) ?w2 (outgoing_queue (vpn ?w2)) = (r, w')"
      using assms k False
      by (simp add: esp_keepalive_tx_def Let_def wdw_def [symmetric] split: prod.splits)
    from esp_tx_loop_events [OF tx] obtain evs where
      ev: "trace w' = trace ?w2 @ evs" "list_all tx_event evs"
          "r = fst wdw \<or> r = 1 \<and> list_ex is_encrypt evs" "fst wdw = 1 \<longrightarrow> r = 1"
      by blast
    have "trace w' = trace w @ Keepalive ka # (e0 @ evs)" using e0(1) ev(1) by simp
    moreover have "list_all tx_event (e0 @ evs)" using e0(2) ev(2) by simp
    moreover have "list_ex is_encrypt evs \<Longrightarrow> list_ex is_encrypt (e0 @ evs)" by simp
    ultimately show ?thesis using ev(3,4) wd1 False k
      by (intro exI [of _ "e0 @ evs"]) (auto split: if_splits)
  qed
qed







lemma esp_mainloop_after_probe:
  assumes "esp_mainloop E w t = (r, t', w')"
  shows "\<exists>more. trace w' = trace (snd (esp_sleep_probe E w t)) @ more"
    and "dtls_fd (vpn (snd (esp_sleep_probe E w t))) = - 1 \<Longrightarrow>
           r = 0 \<and> w' = snd (esp_sleep_probe E w t)"
proof -
  obtain t1 w1 where sp: "esp_sleep_probe E w t = (t1, w1)"
    by (cases "esp_sleep_probe E w t") auto
  show "dtls_fd (vpn (snd (esp_sleep_probe E w t))) = - 1 \<Longrightarrow>
           r = 0 \<and> w' = snd (esp_sleep_probe E w t)"
    using assms sp by (simp add: esp_mainloop_def Let_def)
  show "\<exists>more. trace w' = trace (snd (esp_sleep_probe E w t)) @ more"
  proof (cases "dtls_fd (vpn w1) = - 1")
    case True
    then have "w' = w1" using assms sp by (simp add: esp_mainloop_def Let_def)
    then show ?thesis using sp by simp
  next
    case fd: False
    obtain wd w2 where rl: "esp_recv_loop E (current_esp_in (vpn w))
        (max 2048 (ip_info_mtu (vpn w) + 256)) 0 w1 (sockq w1) = (wd, w2)"
      by (cases "esp_recv_loop E (current_esp_in (vpn w))
        (max 2048 (ip_info_mtu (vpn w) + 256)) 0 w1 (sockq w1)") auto
    from esp_recv_loop_shape [OF rl] obtain er where er: "trace w2 = trace w1 @ er" by blast
    show ?thesis
    proof (cases "dtls_state (vpn w2) = DTLS_CONNECTED")
      case False
      then have "w' = w2" using assms sp fd rl by (simp add: esp_mainloop_def Let_def)
      then show ?thesis using er sp by simp
    next
      case True
      then have kt: "esp_keepalive_tx E wd w2 t1 = (r, t', w')"
        using assms sp fd rl by (simp add: esp_mainloop_def Let_def)
      from esp_keepalive_tx_shape [OF kt] obtain ek where
        "trace w' = trace w2 @ Keepalive (fst (keepalive_action E (dtls_times (vpn w2)) t1)) # ek"
        by blast
      then show ?thesis using er sp by simp
    qed
  qed
qed








text \<open>
  C9, as stated, fails: the socket is tested at line 118, after the probe step, and the
  probe-send action receives the session. With the socket closed at entry, a sleeping
  session with a pending reconnect calls the action; an action that opens the socket
  lets the same call go on to the receive drain, which here receives a datagram and
  puts it on the inbound queue.
\<close>

theorem esp_mainloop_probe_opens_socket:
  "dtls_fd (vpn ex_world_closed) = - 1
   \<and> new_events ex_world_closed (snd (snd (esp_mainloop ex_env ex_world_closed 0)))
       = [Progress PRG_DEBUG Msg_send_probes, Send_probes, Malloc True, Recv 23,
          Progress PRG_TRACE (Msg_received 23),
          Decrypt 0 \<lparr>pkt_len = 3, pkt_hdr = [0, 0, 0, 1, 0, 0, 0, 11],
                      pkt_data = [0x45, 0, 4, 1, 2, 3, 4, 5, 6, 7, 8, 9, 10, 11, 12]\<rparr> 0,
          Catch_probe \<lparr>pkt_len = 1, pkt_hdr = [0, 0, 0, 1, 0, 0, 0, 11],
                      pkt_data = [0x45, 0, 4, 1, 2, 3, 4, 5, 6, 7, 8, 9, 10, 11, 12]\<rparr> 0,
          Queue_incoming \<lparr>pkt_len = 1, pkt_hdr = [0, 0, 0, 1, 0, 0, 0, 11],
                      pkt_data = [0x45, 0, 4, 1, 2, 3, 4, 5, 6, 7, 8, 9, 10, 11, 12]\<rparr>,
          Malloc True, Recv (- 1)]"
  by (simp add: ex_defs model_defs pad_scan.simps)

text \<open>
  C9, amended. When the socket is closed after the probe step, \<^verbatim>\<open>esp_mainloop\<close> returns 0
  and the world is the one the probe step left: no receive, no keepalive decision, no
  transmission. That is so in particular when the socket is closed at entry and the
  probe-send action is absent or leaves it closed. The probe step comes first: a
  sleeping session whose probe deadline has passed or whose reconnect flag is set
  calls the probe-send action, whether the socket is open or not.
\<close>

theorem esp_mainloop_socket_closed:
  assumes "esp_mainloop E w t = (r, t', w')"
  shows "(dtls_fd (vpn (snd (esp_sleep_probe E w t))) = - 1 \<longrightarrow>
            r = 0 \<and> w' = snd (esp_sleep_probe E w t) \<and> list_all probe_event (new_events w w'))
       \<and> (dtls_fd (vpn w) = - 1
            \<and> (case udp_send_probes E of None \<Rightarrow> True | Some f \<Rightarrow> dtls_fd (f (vpn w)) = - 1) \<longrightarrow>
            r = 0 \<and> list_all probe_event (new_events w w'))
       \<and> (dtls_state (vpn w) = DTLS_SLEEPING
            \<and> (fst (ka_check_deadline E t (time_NULL E w)
                      (new_dtls_started (vpn w) + dtls_attempt_period (vpn w))) \<noteq> 0
                 \<or> dtls_need_reconnect (vpn w))
            \<and> udp_send_probes E \<noteq> None \<longrightarrow>
            take 2 (new_events w w') = [Progress PRG_DEBUG Msg_send_probes, Send_probes])"
proof -
  let ?w1 = "snd (esp_sleep_probe E w t)"
  obtain ep where ep: "trace ?w1 = trace w @ ep" "list_all probe_event ep"
    using esp_sleep_probe_shape [of E w t] by auto
  have a: "dtls_fd (vpn ?w1) = - 1 \<Longrightarrow>
            r = 0 \<and> w' = ?w1 \<and> list_all probe_event (new_events w w')"
    using esp_mainloop_after_probe(2) [OF assms] ep by (simp add: new_events_def)
  have b: "dtls_fd (vpn w) = - 1
            \<and> (case udp_send_probes E of None \<Rightarrow> True | Some f \<Rightarrow> dtls_fd (f (vpn w)) = - 1)
           \<Longrightarrow> dtls_fd (vpn ?w1) = - 1"
    by (simp add: esp_sleep_probe_def call_send_probes_def split: prod.splits option.splits)
  obtain more where more: "trace w' = trace ?w1 @ more"
    using esp_mainloop_after_probe(1) [OF assms] by blast
  have c: "dtls_state (vpn w) = DTLS_SLEEPING
            \<and> (fst (ka_check_deadline E t (time_NULL E w)
                      (new_dtls_started (vpn w) + dtls_attempt_period (vpn w))) \<noteq> 0
                 \<or> dtls_need_reconnect (vpn w))
            \<and> udp_send_probes E \<noteq> None
           \<Longrightarrow> trace ?w1 = trace w @ [Progress PRG_DEBUG Msg_send_probes, Send_probes]"
    by (auto simp: esp_sleep_probe_def call_send_probes_def split: prod.splits option.splits)
  have c': "trace ?w1 = trace w @ [Progress PRG_DEBUG Msg_send_probes, Send_probes]
           \<Longrightarrow> take 2 (new_events w w') = [Progress PRG_DEBUG Msg_send_probes, Send_probes]"
    using more by (simp add: new_events_def)
  show ?thesis using a b c c' by blast
qed

theorem esp_mainloop_socket_closed_witness:
  "fst (esp_mainloop ex_env_quiet ex_world_closed 0) = 0
   \<and> new_events ex_world_closed (snd (snd (esp_mainloop ex_env_quiet ex_world_closed 0)))
       = [Progress PRG_DEBUG Msg_send_probes, Send_probes]
   \<and> sockq (snd (snd (esp_mainloop ex_env_quiet ex_world_closed 0))) = sockq ex_world_closed"
  using esp_mainloop_socket_closed [of ex_env_quiet ex_world_closed 0
      "fst (esp_mainloop ex_env_quiet ex_world_closed 0)"
      "fst (snd (esp_mainloop ex_env_quiet ex_world_closed 0))"
      "snd (snd (esp_mainloop ex_env_quiet ex_world_closed 0))"]
  by (simp add: ex_defs model_defs)




section \<open>Session setup and teardown\<close>

text \<open>
  C7, as stated, fails in its last part: on success \<^verbatim>\<open>esp_setup\<close> hands the session to the
  probe-send action (lines 91 and 92), and the state after the call is the one that
  action leaves. A probe-send action that marks the session as sleeping when it opens
  the socket takes a Connected session to Sleeping.
\<close>

theorem esp_setup_probe_writes_state:
  "dtls_state (vpn (upd_vpn (\<lambda>v. v\<lparr>dtls_fd := - 1\<rparr>) ex_world)) = DTLS_CONNECTED
   \<and> fst (esp_setup ex_env_reopen (upd_vpn (\<lambda>v. v\<lparr>dtls_fd := - 1\<rparr>) ex_world) 30) = 0
   \<and> dtls_state (vpn (snd (esp_setup ex_env_reopen
        (upd_vpn (\<lambda>v. v\<lparr>dtls_fd := - 1\<rparr>) ex_world) 30))) = DTLS_SLEEPING"
  by (simp add: ex_defs esp_setup_def Let_def call_send_probes_vpn)

text \<open>
  C7, amended. \<^verbatim>\<open>esp_setup\<close> returns \<open>-EINVAL\<close> exactly when the state is Disabled or NoSecret,
  and then the session is left as it was. Otherwise it returns 0 and does not itself
  write \<open>dtls_state\<close>: it sets the probe interval and the attempt period and hands that
  session to the probe-send action, so the session after the call is what the action
  makes of it, and the state is unchanged when there is no such action.
\<close>

theorem esp_setup_einval_iff_inoperable:
  "(fst (esp_setup E w period) = - EINVAL
      \<longleftrightarrow> dtls_state (vpn w) = DTLS_DISABLED \<or> dtls_state (vpn w) = DTLS_NOSECRET)
   \<and> (dtls_state (vpn w) = DTLS_DISABLED \<or> dtls_state (vpn w) = DTLS_NOSECRET
        \<longrightarrow> esp_setup E w period = (- EINVAL, w))
   \<and> (dtls_state (vpn w) \<noteq> DTLS_DISABLED \<and> dtls_state (vpn w) \<noteq> DTLS_NOSECRET \<longrightarrow>
        fst (esp_setup E w period) = 0
        \<and> vpn (snd (esp_setup E w period))
            = (case udp_send_probes E of None \<Rightarrow> (\<lambda>v. v) | Some f \<Rightarrow> f)
                ((vpn w)\<lparr>dtls_times := (dtls_times (vpn w))
                            \<lparr>dpd := (if esp_ssl_fallback (vpn w) \<noteq> 0
                                     then esp_ssl_fallback (vpn w) else period)\<rparr>,
                         dtls_attempt_period := period\<rparr>)
        \<and> (udp_send_probes E = None \<longrightarrow>
              dtls_state (vpn (snd (esp_setup E w period))) = dtls_state (vpn w)))"
  by (simp add: esp_setup_def Let_def EINVAL_def call_send_probes_vpn split: option.splits)

theorem esp_setup_einval_iff_inoperable_witness:
  "fst (esp_setup ex_env (upd_vpn (\<lambda>v. v\<lparr>dtls_fd := - 1\<rparr>) ex_world) 30) = 0
   \<and> dtls_state (vpn (snd (esp_setup ex_env (upd_vpn (\<lambda>v. v\<lparr>dtls_fd := - 1\<rparr>) ex_world) 30)))
       = DTLS_CONNECTED
   \<and> dtls_fd (vpn (snd (esp_setup ex_env (upd_vpn (\<lambda>v. v\<lparr>dtls_fd := - 1\<rparr>) ex_world) 30))) = 4
   \<and> dpd (dtls_times (vpn (snd (esp_setup ex_env
        (upd_vpn (\<lambda>v. v\<lparr>dtls_fd := - 1\<rparr>) ex_world) 30)))) = 30
   \<and> dtls_state (vpn (snd (esp_setup (ex_env\<lparr>udp_send_probes := None\<rparr>) ex_world 30)))
       = DTLS_CONNECTED
   \<and> esp_setup ex_env (upd_vpn (\<lambda>v. v\<lparr>dtls_state := DTLS_NOSECRET\<rparr>) ex_world) 30
       = (- EINVAL, upd_vpn (\<lambda>v. v\<lparr>dtls_state := DTLS_NOSECRET\<rparr>) ex_world)"
  using esp_setup_einval_iff_inoperable
          [of ex_env "upd_vpn (\<lambda>v. v\<lparr>dtls_fd := - 1\<rparr>) ex_world" 30]
        esp_setup_einval_iff_inoperable
          [of "ex_env\<lparr>udp_send_probes := None\<rparr>" ex_world 30]
        esp_setup_einval_iff_inoperable
          [of ex_env "upd_vpn (\<lambda>v. v\<lparr>dtls_state := DTLS_NOSECRET\<rparr>) ex_world" 30]
  by (simp add: ex_defs EINVAL_def)

text \<open>
  C8. \<^verbatim>\<open>esp_close\<close> leaves the socket closed; an open socket is released and its read,
  write and exception monitoring stopped, a closed one is not touched. The state
  becomes Sleeping exactly when it was Sleeping, Connecting or Connected; Disabled and
  NoSecret stay as they are.
\<close>

theorem esp_close_sleeping_iff_active:
  "dtls_fd (vpn (esp_close w)) = - 1
   \<and> (dtls_state (vpn (esp_close w)) = DTLS_SLEEPING
        \<longleftrightarrow> dtls_state (vpn w) \<in> {DTLS_SLEEPING, DTLS_CONNECTING, DTLS_CONNECTED})
   \<and> (dtls_state (vpn w) \<in> {DTLS_DISABLED, DTLS_NOSECRET}
        \<longrightarrow> dtls_state (vpn (esp_close w)) = dtls_state (vpn w))
   \<and> (dtls_fd (vpn w) \<noteq> - 1 \<longrightarrow>
        trace (esp_close w) = trace w @ [Closesocket (dtls_fd (vpn w))]
        \<and> \<not> dtls_read_monitored (vpn (esp_close w))
        \<and> \<not> dtls_write_monitored (vpn (esp_close w))
        \<and> \<not> dtls_except_monitored (vpn (esp_close w)))
   \<and> (dtls_fd (vpn w) = - 1 \<longrightarrow>
        trace (esp_close w) = trace w
        \<and> dtls_read_monitored (vpn (esp_close w)) = dtls_read_monitored (vpn w)
        \<and> dtls_write_monitored (vpn (esp_close w)) = dtls_write_monitored (vpn w)
        \<and> dtls_except_monitored (vpn (esp_close w)) = dtls_except_monitored (vpn w))"
  by (cases "dtls_state (vpn w)")
     (simp_all add: esp_close_def Let_def unmonitor_read_fd_def
        unmonitor_write_fd_def unmonitor_except_fd_def)

theorem esp_close_sleeping_iff_active_witness:
  "dtls_state (vpn (esp_close ex_world)) = DTLS_SLEEPING
   \<and> trace (esp_close ex_world) = [Closesocket 3]
   \<and> \<not> dtls_read_monitored (vpn (esp_close ex_world))
   \<and> \<not> dtls_except_monitored (vpn (esp_close ex_world))
   \<and> dtls_state (vpn (esp_close (upd_vpn (\<lambda>v. v\<lparr>dtls_state := DTLS_DISABLED, dtls_fd := - 1\<rparr>)
         ex_world))) = DTLS_DISABLED
   \<and> dtls_read_monitored (vpn (esp_close
         (upd_vpn (\<lambda>v. v\<lparr>dtls_state := DTLS_DISABLED, dtls_fd := - 1\<rparr>) ex_world)))"
  using esp_close_sleeping_iff_active [of ex_world]
        esp_close_sleeping_iff_active
          [of "upd_vpn (\<lambda>v. v\<lparr>dtls_state := DTLS_DISABLED, dtls_fd := - 1\<rparr>) ex_world"]
  by (simp add: ex_world_def ex_vpn_def)

end
